theory Spec2Isabelle
  imports Main
begin

section \<open>Beat Studio backend: the stem separation pipeline of server/main.py\<close>

text \<open>
  The program is one Python module. It receives an uploaded audio file, writes it into a
  temporary directory, transcodes it with ffmpeg when its extension is not accepted, runs
  the Demucs command line tool on it, and zips the stem files that Demucs left behind.

  Modelling decisions:
  \<^item> Python strings and bytes are \<open>string\<close> (lists of 8-bit characters); \<open>str.lower\<close> is
    modelled on the ASCII letters, which is where it can matter for the accepted suffixes.
  \<^item> A \<open>pathlib.Path\<close> that reaches the file system is absolute (\<open>tempfile\<close> and
    \<open>Path.resolve\<close> return absolute paths); it is modelled by the list of its components
    below the root. Python 3.10 to 3.13 semantics of \<open>name\<close>, \<open>suffix\<close> and \<open>stem\<close>.
  \<^item> The file system is a map from normalised locations to nodes (regular file with its
    bytes, or directory), without symbolic links or permissions. Every access goes through
    path resolution, so an entry below a missing location or below a file is out of reach.
  \<^item> The external programs (ffmpeg, Demucs), \<open>shutil.which\<close>, the process environment,
    the temporary directory and its candidate names are parameters of the model: every
    theorem holds for whatever they do.
  \<^item> Exceptions are values of type \<open>exn\<close>: a function that can raise returns \<open>exn + 'a\<close>, and
    one that changes the world returns the new world next to it.
  \<^item> The world carries the file system and the trace of the effects the module asked for
    (\<open>shutil.which\<close> searches, subprocess spawns, directory creation and removal, writes).
\<close>

subsection \<open>Strings\<close>

definition lower_char :: "char \<Rightarrow> char" where
  "lower_char c =
     (let n = (of_char c :: nat) in if 65 \<le> n \<and> n \<le> 90 then char_of (n + 32) else c)"

definition upper_char :: "char \<Rightarrow> char" where
  "upper_char c =
     (let n = (of_char c :: nat) in if 97 \<le> n \<and> n \<le> 122 then char_of (n - 32) else c)"

text \<open>\<open>str.lower()\<close>\<close>

definition lower :: "string \<Rightarrow> string" where
  "lower s = map lower_char s"

text \<open>\<open>s.rfind(c)\<close>: the index of the last occurrence of \<open>c\<close>, or \<open>-1\<close>.\<close>

fun rfind :: "string \<Rightarrow> char \<Rightarrow> int" where
  "rfind [] c = - 1"
| "rfind (x # xs) c =
     (let r = rfind xs c in if 0 \<le> r then r + 1 else if x = c then 0 else - 1)"

text \<open>\<open>s.split(c)\<close>\<close>

fun split_on :: "char \<Rightarrow> string \<Rightarrow> string list" where
  "split_on c [] = [[]]"
| "split_on c (x # xs) =
     (if x = c then [] # split_on c xs
      else (case split_on c xs of
              [] \<Rightarrow> [[x]]
            | y # ys \<Rightarrow> (x # y) # ys))"

text \<open>Truthiness of a value of type \<open>str | None\<close>: \<open>None\<close> and the empty string are false.\<close>

definition truthy :: "string option \<Rightarrow> bool" where
  "truthy v = (case v of None \<Rightarrow> False | Some s \<Rightarrow> s \<noteq> [])"

subsection \<open>Paths (pathlib, POSIX flavour)\<close>

type_synonym path = "string list"

text \<open>
  The components of a path string: split at the separator, empty components and \<open>.\<close>
  dropped, \<open>..\<close> kept.
\<close>

definition parse_parts :: "string \<Rightarrow> path" where
  "parse_parts s = filter (\<lambda>x. x \<noteq> [] \<and> x \<noteq> ''.'') (split_on (CHR ''/'') s)"

definition is_absolute :: "string \<Rightarrow> bool" where
  "is_absolute s = (case s of [] \<Rightarrow> False | c # _ \<Rightarrow> c = CHR ''/'')"

text \<open>\<open>p / s\<close>: an absolute right operand replaces the left one.\<close>

definition joinpath :: "path \<Rightarrow> string \<Rightarrow> path" where
  "joinpath p s = (if is_absolute s then parse_parts s else p @ parse_parts s)"

text \<open>\<open>p.name\<close>: the final component, empty for the root.\<close>

definition name :: "path \<Rightarrow> string" where
  "name p = (case p of [] \<Rightarrow> [] | _ \<Rightarrow> last p)"

text \<open>\<open>p.suffix\<close> and \<open>p.stem\<close>\<close>

definition suffix :: "path \<Rightarrow> string" where
  "suffix p =
     (let nm = name p; i = rfind nm (CHR ''.'')
      in if 0 < i \<and> i < int (length nm) - 1 then drop (nat i) nm else [])"

definition stem :: "path \<Rightarrow> string" where
  "stem p =
     (let nm = name p; i = rfind nm (CHR ''.'')
      in if 0 < i \<and> i < int (length nm) - 1 then take (nat i) nm else nm)"

text \<open>\<open>str(p)\<close>\<close>

definition str :: "path \<Rightarrow> string" where
  "str p = (case p of [] \<Rightarrow> ''/'' | _ \<Rightarrow> concat (map (\<lambda>c. CHR ''/'' # c) p))"

subsection \<open>Exceptions, file system, world\<close>

datatype exn =
    HTTPException nat string
  | AttributeError
  | FileNotFoundError
  | NotADirectoryError
  | IsADirectoryError
  | FileExistsError
  | UnicodeDecodeError
  | OSError

datatype node = File string | Dir

type_synonym filesystem = "string list \<Rightarrow> node option"

text \<open>
  Path resolution from location \<open>cur\<close>: every location passed through must be a
  directory; \<open>..\<close> steps to the parent (the root is its own parent).
\<close>

fun walk :: "filesystem \<Rightarrow> string list \<Rightarrow> path \<Rightarrow> exn + string list" where
  "walk fs cur [] = Inr cur"
| "walk fs cur (c # cs) =
     (case fs cur of
        None \<Rightarrow> Inl FileNotFoundError
      | Some (File b) \<Rightarrow> Inl NotADirectoryError
      | Some Dir \<Rightarrow> walk fs (if c = ''..'' then butlast cur else cur @ [c]) cs)"

text \<open>\<open>p.exists()\<close>: true for a file and for a directory; a resolution error is false.\<close>

definition exists :: "filesystem \<Rightarrow> path \<Rightarrow> bool" where
  "exists fs p = (case walk fs [] p of Inl e \<Rightarrow> False | Inr k \<Rightarrow> fs k \<noteq> None)"

definition is_file :: "filesystem \<Rightarrow> path \<Rightarrow> bool" where
  "is_file fs p =
     (case walk fs [] p of
        Inl e \<Rightarrow> False
      | Inr k \<Rightarrow> (case fs k of Some (File b) \<Rightarrow> True | _ \<Rightarrow> False))"

definition is_dir :: "filesystem \<Rightarrow> path \<Rightarrow> bool" where
  "is_dir fs p = (case walk fs [] p of Inl e \<Rightarrow> False | Inr k \<Rightarrow> fs k = Some Dir)"

text \<open>The root and a path ending in \<open>..\<close> always denote directories.\<close>

definition names_directory :: "path \<Rightarrow> bool" where
  "names_directory p = (case p of [] \<Rightarrow> True | _ \<Rightarrow> last p = ''..'')"

text \<open>\<open>p.write_bytes(data)\<close>: creates or overwrites a regular file.\<close>

definition write_bytes :: "filesystem \<Rightarrow> path \<Rightarrow> string \<Rightarrow> exn + filesystem" where
  "write_bytes fs p d =
     (case walk fs [] p of
        Inl e \<Rightarrow> Inl e
      | Inr k \<Rightarrow>
          if names_directory p \<or> fs k = Some Dir then Inl IsADirectoryError
          else Inr (fs(k \<mapsto> File d)))"


text \<open>Location \<open>q\<close> is \<open>k\<close> or lies below it.\<close>

definition below :: "string list \<Rightarrow> string list \<Rightarrow> bool" where
  "below k q = (take (length k) q = k)"

text \<open>\<open>os.mkdir(p)\<close>: the new directory is empty.\<close>

definition mkdir :: "filesystem \<Rightarrow> path \<Rightarrow> exn + filesystem" where
  "mkdir fs p =
     (case walk fs [] p of
        Inl e \<Rightarrow> Inl e
      | Inr k \<Rightarrow>
          if names_directory p \<or> fs k \<noteq> None then Inl FileExistsError
          else Inr (\<lambda>q. if q = k then Some Dir else if below k q then None else fs q))"

text \<open>
  \<open>tempfile.mkdtemp\<close>: tries the candidate names in turn, skips the ones that exist, and
  raises \<open>FileExistsError\<close> when none is left; any other error of \<open>mkdir\<close> is raised at once.
\<close>

fun mkdtemp :: "filesystem \<Rightarrow> path \<Rightarrow> string list \<Rightarrow> exn + (path \<times> filesystem)" where
  "mkdtemp fs dir [] = Inl FileExistsError"
| "mkdtemp fs dir (n # ns) =
     (case mkdir fs (dir @ [n]) of
        Inr fs' \<Rightarrow> Inr (dir @ [n], fs')
      | Inl e \<Rightarrow> if e = FileExistsError then mkdtemp fs dir ns else Inl e)"

text \<open>
  \<open>TemporaryDirectory._rmtree\<close>, that is \<open>shutil.rmtree\<close> with the error handler of
  \<open>tempfile\<close>: a \<open>FileNotFoundError\<close> is ignored and every other error is raised (there are
  no permissions here). A path that does not resolve because a component is missing, or
  that resolves to nothing, is left alone. A path with a regular file on the way, or with a
  regular file at its end, raises \<open>NotADirectoryError\<close> and the file stays. A directory is
  emptied and removed. (A path that names the root or ends in \<open>..\<close> has its directory
  emptied but not removed, which is an error only for the root; \<open>mkdtemp\<close> never returns
  such a path.) The result is the exception raised, if any, and the new file system.
\<close>

definition rmtree :: "filesystem \<Rightarrow> path \<Rightarrow> exn option \<times> filesystem" where
  "rmtree fs p =
     (case walk fs [] p of
        Inl e \<Rightarrow> (if e = FileNotFoundError then None else Some e, fs)
      | Inr k \<Rightarrow>
          (case fs k of
             None \<Rightarrow> (None, fs)
           | Some (File b) \<Rightarrow> (Some NotADirectoryError, fs)
           | Some Dir \<Rightarrow>
               if names_directory p
               then (if k = [] then Some OSError else None,
                     \<lambda>q. if below k q \<and> q \<noteq> k then None else fs q)
               else (None, \<lambda>q. if below k q then None else fs q)))"


subsection \<open>The environment and the world\<close>

text \<open>What a finished child process hands back through \<open>communicate()\<close>.\<close>

record completed =
  returncode :: int
  stdout :: string
  stderr :: string

text \<open>
  Everything the module takes from outside: the process environment (\<open>os.getenv\<close>), the
  directory of the module file, \<open>shutil.which\<close>, the behaviour of a spawned program (it
  may fail to start, and it may change the file system in any way), \<open>bytes.decode\<close>
  (\<open>None\<close>: invalid UTF-8), and the directory and candidate names of \<open>tempfile\<close>.
\<close>

record env =
  environ :: "string \<Rightarrow> string option"
  here :: path
  which :: "filesystem \<Rightarrow> string \<Rightarrow> string option"
  run_process :: "string list \<Rightarrow> filesystem \<Rightarrow> (exn + completed) \<times> filesystem"
  decode :: "string \<Rightarrow> string option"
  gettempdir :: path
  candidate_names :: "string list"

datatype event =
    Which string
  | Spawn "string list"
  | Mkdtemp path
  | WriteBytes path
  | Rmtree path

record world =
  files :: filesystem
  effects :: "event list"

definition DEMUCS_MODEL :: "env \<Rightarrow> string" where
  "DEMUCS_MODEL env = (case environ env ''DEMUCS_MODEL'' of None \<Rightarrow> ''htdemucs'' | Some m \<Rightarrow> m)"

definition DEMUCS_BIN :: "env \<Rightarrow> string option" where
  "DEMUCS_BIN env = environ env ''DEMUCS_BIN''"

definition FFMPEG_BIN :: "env \<Rightarrow> string option" where
  "FFMPEG_BIN env = environ env ''FFMPEG_BIN''"

definition shutil_which :: "env \<Rightarrow> string \<Rightarrow> world \<Rightarrow> string option \<times> world" where
  "shutil_which env nm w = (which env (files w) nm, w\<lparr>effects := effects w @ [Which nm]\<rparr>)"

text \<open>\<open>asyncio.create_subprocess_exec(*cmd, ...)\<close> followed by \<open>proc.communicate()\<close>.\<close>

definition subprocess_exec :: "env \<Rightarrow> string list \<Rightarrow> world \<Rightarrow> (exn + completed) \<times> world" where
  "subprocess_exec env cmd w =
     (let (r, fs') = run_process env cmd (files w)
      in (r, w\<lparr>files := fs', effects := effects w @ [Spawn cmd]\<rparr>))"

text \<open>\<open>stderr.decode() or stdout.decode()\<close>\<close>

definition diagnostics :: "env \<Rightarrow> completed \<Rightarrow> exn + string" where
  "diagnostics env proc =
     (case decode env (stderr proc) of
        None \<Rightarrow> Inl UnicodeDecodeError
      | Some e \<Rightarrow>
          if e \<noteq> [] then Inr e
          else (case decode env (stdout proc) of
                  None \<Rightarrow> Inl UnicodeDecodeError
                | Some out \<Rightarrow> Inr out))"

definition write_bytes_in :: "path \<Rightarrow> string \<Rightarrow> world \<Rightarrow> (exn + unit) \<times> world" where
  "write_bytes_in p d w =
     (case write_bytes (files w) p d of
        Inl e \<Rightarrow> (Inl e, w\<lparr>effects := effects w @ [WriteBytes p]\<rparr>)
      | Inr fs' \<Rightarrow> (Inr (), w\<lparr>files := fs', effects := effects w @ [WriteBytes p]\<rparr>))"

subsection \<open>Binary resolution\<close>

definition resolve_demucs_bin :: "env \<Rightarrow> world \<Rightarrow> (exn + string) \<times> world" where
  "resolve_demucs_bin env w =
     (if truthy (DEMUCS_BIN env) then (Inr (the (DEMUCS_BIN env)), w)
      else
        let (path_bin, w1) = shutil_which env ''demucs'' w in
        if truthy path_bin then (Inr (the path_bin), w1)
        else
          let candidate_unix = joinpath (joinpath (joinpath (here env) ''.venv'') ''bin'') ''demucs'';
              candidate_win =
                joinpath (joinpath (joinpath (here env) ''.venv'') ''Scripts'') ''demucs.exe''
          in if exists (files w1) candidate_unix then (Inr (str candidate_unix), w1)
             else if exists (files w1) candidate_win then (Inr (str candidate_win), w1)
             else (Inl (HTTPException 500
                     (''Demucs CLI not found. Ensure it'' @ [CHR 0x27] @
                      ''s installed in PATH or server/.venv (set DEMUCS_BIN to override).'')), w1))"

definition resolve_ffmpeg_bin :: "env \<Rightarrow> world \<Rightarrow> string option \<times> world" where
  "resolve_ffmpeg_bin env w =
     (if truthy (FFMPEG_BIN env) then (FFMPEG_BIN env, w)
      else
        let (path_bin, w1) = shutil_which env ''ffmpeg'' w in
        if truthy path_bin then (path_bin, w1)
        else (None, w1))"

subsection \<open>Transcoding\<close>

definition maybe_transcode_to_wav ::
  "env \<Rightarrow> path \<Rightarrow> path \<Rightarrow> world \<Rightarrow> (exn + path) \<times> world" where
  "maybe_transcode_to_wav env input_path workdir w =
     (if lower (suffix input_path) \<in> {''.wav'', ''.flac'', ''.mp3'', ''.m4a'', ''.ogg''}
      then (Inr input_path, w)
      else
        let (ffmpeg_bin, w1) = resolve_ffmpeg_bin env w in
        if \<not> truthy ffmpeg_bin
        then (Inl (HTTPException 500
                (''FFmpeg is required to transcode this format (e.g., webm). '' @
                 ''Install ffmpeg or upload a wav/mp3 file.'')), w1)
        else
          let output_path = joinpath workdir (stem input_path @ ''.wav'');
              cmd = [the ffmpeg_bin, ''-y'', ''-i'', str input_path, ''-ar'', ''44100'',
                     ''-ac'', ''2'', str output_path];
              (r, w2) = subprocess_exec env cmd w1
          in case r of
               Inl e \<Rightarrow> (Inl e, w2)
             | Inr proc \<Rightarrow>
                 if returncode proc \<noteq> 0 \<or> \<not> exists (files w2) output_path
                 then (case diagnostics env proc of
                         Inl e \<Rightarrow> (Inl e, w2)
                       | Inr d \<Rightarrow>
                           (Inl (HTTPException 500 (''FFmpeg failed to transcode input: '' @ d)),
                            w2))
                 else (Inr output_path, w2))"

subsection \<open>Separation\<close>

definition run_demucs :: "env \<Rightarrow> path \<Rightarrow> path \<Rightarrow> world \<Rightarrow> (exn + path) \<times> world" where
  "run_demucs env input_path output_root w =
     (let (b, w1) = resolve_demucs_bin env w in
      (case b of
        Inl e \<Rightarrow> (Inl e, w1)
      | Inr demucs_bin \<Rightarrow>
          let cmd = [demucs_bin, ''-n'', DEMUCS_MODEL env, ''-o'', str output_root, str input_path];
              (r, w2) = subprocess_exec env cmd w1
          in (case r of
               Inl e \<Rightarrow> (Inl e, w2)
             | Inr proc \<Rightarrow>
                 if returncode proc \<noteq> 0
                 then (case diagnostics env proc of
                         Inl e \<Rightarrow> (Inl e, w2)
                       | Inr d \<Rightarrow> (Inl (HTTPException 500 (''Demucs failed: '' @ d)), w2))
                 else
                   let song_dir =
                         joinpath (joinpath output_root (DEMUCS_MODEL env)) (stem input_path)
                   in if \<not> exists (files w2) song_dir
                      then (Inl (HTTPException 500 ''Demucs output missing.''), w2)
                      else (Inr song_dir, w2))))"

subsection \<open>Packaging\<close>

text \<open>An archive is the list of its entries, in the order written: name and content.\<close>

type_synonym archive = "(string \<times> string) list"

text \<open>
  \<open>ZipFile.write(p, arcname=a)\<close>: a regular file is stored under \<open>a\<close> with its bytes; a
  directory is stored, without its content, as the empty entry \<open>a/\<close>.
\<close>

definition zf_write :: "filesystem \<Rightarrow> path \<Rightarrow> string \<Rightarrow> archive \<Rightarrow> exn + archive" where
  "zf_write fs p arcname zf =
     (case walk fs [] p of
        Inl e \<Rightarrow> Inl e
      | Inr k \<Rightarrow>
          (case fs k of
             None \<Rightarrow> Inl FileNotFoundError
           | Some (File b) \<Rightarrow> Inr (zf @ [(arcname, b)])
           | Some Dir \<Rightarrow> Inr (zf @ [(arcname @ ''/'', [])])))"

text \<open>The loop of \<open>zip_stems\<close> over the stems left, with the archive and \<open>found_any\<close>.\<close>

fun zip_loop ::
  "filesystem \<Rightarrow> path \<Rightarrow> string list \<Rightarrow> archive \<times> bool \<Rightarrow> exn + archive \<times> bool" where
  "zip_loop fs stem_dir [] st = Inr st"
| "zip_loop fs stem_dir (s # rest) (zf, found_any) =
     (let stem_path = joinpath stem_dir (s @ ''.wav'')
      in if exists fs stem_path
         then (case zf_write fs stem_path (s @ ''.wav'') zf of
                 Inl e \<Rightarrow> Inl e
               | Inr zf' \<Rightarrow> zip_loop fs stem_dir rest (zf', True))
         else zip_loop fs stem_dir rest (zf, found_any))"

definition stems :: "string list" where
  "stems = [''drums'', ''bass'', ''vocals'', ''other'']"

definition zip_stems :: "filesystem \<Rightarrow> path \<Rightarrow> exn + archive" where
  "zip_stems fs stem_dir =
     (case zip_loop fs stem_dir stems ([], False) of
        Inl e \<Rightarrow> Inl e
      | Inr (zf, found_any) \<Rightarrow>
          if \<not> found_any then Inl (HTTPException 500 ''No stems produced by Demucs.'')
          else Inr zf)"

subsection \<open>The endpoint\<close>

record upload =
  filename :: "string option"
  content :: string

record request =
  http_method :: string
  upload_file :: "upload option"

text \<open>
  The two responses of the endpoint: the acknowledgement of \<open>OPTIONS\<close>, and the streamed
  archive with its \<open>X-Model\<close> and \<open>Content-Disposition\<close> headers.
\<close>

datatype response =
    StatusOk
  | StreamingResponse archive string string

text \<open>
  The statements of the \<open>with\<close> block after the upload is written: transcoding,
  separation, packaging and the response.
\<close>

definition process_input ::
  "env \<Rightarrow> path \<Rightarrow> path \<Rightarrow> path \<Rightarrow> world \<Rightarrow> (exn + response) \<times> world" where
  "process_input env input_path tmp_path output_root w1 =
     (let (t, w2) = maybe_transcode_to_wav env input_path tmp_path w1 in
      (case t of
         Inl e \<Rightarrow> (Inl e, w2)
       | Inr processed_input \<Rightarrow>
           let (s, w3) = run_demucs env processed_input output_root w2 in
           (case s of
              Inl e \<Rightarrow> (Inl e, w3)
            | Inr stem_dir \<Rightarrow>
                (case zip_stems (files w3) stem_dir of
                   Inl e \<Rightarrow> (Inl e, w3)
                 | Inr zip_buffer \<Rightarrow>
                     (Inr (StreamingResponse zip_buffer (DEMUCS_MODEL env)
                             (''attachment; filename='' @ [CHR 0x22] @
                              stem input_path @ ''_stems.zip'' @ [CHR 0x22])), w3)))))"

text \<open>The block under \<open>with tempfile.TemporaryDirectory() as tmpdir\<close>.\<close>

definition separate_body :: "env \<Rightarrow> upload \<Rightarrow> path \<Rightarrow> world \<Rightarrow> (exn + response) \<times> world" where
  "separate_body env upl tmpdir w =
     (let tmp_path = tmpdir;
          input_path = joinpath tmp_path (name (parse_parts (the (filename upl))));
          output_root = joinpath tmp_path ''separated'';
          raw = content upl;
          (wr, w1) = write_bytes_in input_path raw w
      in case wr of
           Inl e \<Rightarrow> (Inl e, w1)
         | Inr u \<Rightarrow> process_input env input_path tmp_path output_root w1)"

text \<open>
  \<open>TemporaryDirectory.__exit__\<close>: the directory is removed whatever the outcome of the
  block; an exception raised by the removal replaces that outcome.
\<close>

definition cleanup :: "path \<Rightarrow> (exn + response) \<times> world \<Rightarrow> (exn + response) \<times> world" where
  "cleanup tmpdir out =
     (let (r, w2) = out;
          (err, fs') = rmtree (files w2) tmpdir;
          w3 = w2\<lparr>files := fs', effects := effects w2 @ [Rmtree tmpdir]\<rparr>
      in case err of
           Some e \<Rightarrow> (Inl e, w3)
         | None \<Rightarrow> (r, w3))"

text \<open>
  The handler. A request without the file field reaches \<open>file.filename\<close> with \<open>file\<close>
  being \<open>None\<close>, which raises \<open>AttributeError\<close>.
\<close>

definition separate :: "env \<Rightarrow> request \<Rightarrow> world \<Rightarrow> (exn + response) \<times> world" where
  "separate env request w =
     (if http_method request = ''OPTIONS'' then (Inr StatusOk, w)
      else
        case upload_file request of
          None \<Rightarrow> (Inl AttributeError, w)
        | Some upl \<Rightarrow>
            if \<not> truthy (filename upl) then (Inl (HTTPException 400 ''File required.''), w)
            else
              (case mkdtemp (files w) (gettempdir env) (candidate_names env) of
                 Inl e \<Rightarrow> (Inl e, w)
               | Inr (tmpdir, fs1) \<Rightarrow>
                   cleanup tmpdir
                     (separate_body env upl tmpdir
                        (w\<lparr>files := fs1, effects := effects w @ [Mkdtemp tmpdir]\<rparr>))))"

subsection \<open>Observing the trace\<close>

text \<open>The commands spawned and the paths written, in order.\<close>

definition spawned :: "world \<Rightarrow> string list list" where
  "spawned w = concat (map (\<lambda>e. case e of Spawn cmd \<Rightarrow> [cmd] | _ \<Rightarrow> []) (effects w))"


subsection \<open>Notions of the specification\<close>

text \<open>
  Two extensions differ only in letter case when they have the same length and, position
  by position, the characters are equal or one is the upper case form of the other.
\<close>

definition differs_only_in_case :: "string \<Rightarrow> string \<Rightarrow> bool" where
  "differs_only_in_case s t =
     list_all2 (\<lambda>x y. x = y \<or> upper_char x = y \<or> x = upper_char y) s t"

text \<open>
  Binary resolution as the specification words it, for both kinds of binary: the override
  if set, then the executable search path, then the known local installation directories
  (the \<open>.venv\<close> beside the module, Unix and Windows naming), first match wins.
\<close>

datatype binary_kind = SeparationEngine | Transcoder

definition executable_name :: "binary_kind \<Rightarrow> string" where
  "executable_name k = (case k of SeparationEngine \<Rightarrow> ''demucs'' | Transcoder \<Rightarrow> ''ffmpeg'')"

definition override :: "env \<Rightarrow> binary_kind \<Rightarrow> string option" where
  "override env k = (case k of SeparationEngine \<Rightarrow> DEMUCS_BIN env | Transcoder \<Rightarrow> FFMPEG_BIN env)"

definition local_candidates :: "env \<Rightarrow> binary_kind \<Rightarrow> path list" where
  "local_candidates env k =
     [joinpath (joinpath (joinpath (here env) ''.venv'') ''bin'') (executable_name k),
      joinpath (joinpath (joinpath (here env) ''.venv'') ''Scripts'') (executable_name k @ ''.exe'')]"

fun first_match :: "string option list \<Rightarrow> string option" where
  "first_match [] = None"
| "first_match (c # cs) = (if truthy c then c else first_match cs)"

definition spec_resolve :: "env \<Rightarrow> binary_kind \<Rightarrow> filesystem \<Rightarrow> string option" where
  "spec_resolve env k fs =
     first_match
       ([override env k, which env fs (executable_name k)] @
        map (\<lambda>p. if exists fs p then Some (str p) else None) (local_candidates env k))"

text \<open>The resolvers of the module, by kind (\<open>None\<close>: nothing resolved).\<close>

definition resolve :: "env \<Rightarrow> binary_kind \<Rightarrow> world \<Rightarrow> string option" where
  "resolve env k w =
     (case k of
        SeparationEngine \<Rightarrow>
          (case fst (resolve_demucs_bin env w) of Inl e \<Rightarrow> None | Inr b \<Rightarrow> Some b)
      | Transcoder \<Rightarrow> fst (resolve_ffmpeg_bin env w))"

subsection \<open>Concrete installations\<close>

text \<open>
  A file system with \<open>/tmp\<close> and the module directory \<open>/srv\<close>; Demucs is on the search path,
  ffmpeg is not installed; the engine leaves \<open>drums.wav\<close> and \<open>other.wav\<close> for \<open>song\<close>.
\<close>

definition example_files :: filesystem where
  "example_files = [[] \<mapsto> Dir, [''tmp''] \<mapsto> Dir, [''srv''] \<mapsto> Dir]"

definition example_engine :: "string list \<Rightarrow> filesystem \<Rightarrow> (exn + completed) \<times> filesystem" where
  "example_engine cmd fs =
     (Inr \<lparr>returncode = 0, stdout = [], stderr = []\<rparr>,
      fs([''tmp'', ''tmpa'', ''separated''] \<mapsto> Dir,
         [''tmp'', ''tmpa'', ''separated'', ''htdemucs''] \<mapsto> Dir,
         [''tmp'', ''tmpa'', ''separated'', ''htdemucs'', ''song''] \<mapsto> Dir,
         [''tmp'', ''tmpa'', ''separated'', ''htdemucs'', ''song'', ''drums.wav''] \<mapsto> File ''dd'',
         [''tmp'', ''tmpa'', ''separated'', ''htdemucs'', ''song'', ''other.wav''] \<mapsto> File ''oo''))"

definition example_env :: env where
  "example_env =
     \<lparr>environ = (\<lambda>v. None),
      here = [''srv''],
      which = (\<lambda>fs n. if n = ''demucs'' then Some ''/usr/bin/demucs'' else None),
      run_process = example_engine,
      decode = Some,
      gettempdir = [''tmp''],
      candidate_names = [''tmpa'']\<rparr>"

definition example_world :: world where
  "example_world = \<lparr>files = example_files, effects = []\<rparr>"

text \<open>Two uploads: one that needs transcoding, one that does not.\<close>

definition clip_request :: request where
  "clip_request =
     \<lparr>http_method = ''POST'',
      upload_file = Some \<lparr>filename = Some ''clip.webm'', content = ''abc''\<rparr>\<rparr>"

definition song_request :: request where
  "song_request =
     \<lparr>http_method = ''POST'',
      upload_file = Some \<lparr>filename = Some ''../x/song.wav'', content = ''abc''\<rparr>\<rparr>"

text \<open>
  An installation whose only binaries are in the local \<open>.venv\<close>; an engine that exits 0
  and writes nothing; a world in which the workspace exists; two stem directories.
\<close>

definition local_install_files :: filesystem where
  "local_install_files =
     [[] \<mapsto> Dir, [''srv''] \<mapsto> Dir, [''srv'', ''.venv''] \<mapsto> Dir,
      [''srv'', ''.venv'', ''bin''] \<mapsto> Dir,
      [''srv'', ''.venv'', ''bin'', ''demucs''] \<mapsto> File ''#!demucs'',
      [''srv'', ''.venv'', ''bin'', ''ffmpeg''] \<mapsto> File ''#!ffmpeg'']"

definition local_install_env :: env where
  "local_install_env = example_env\<lparr>which := (\<lambda>fs n. None)\<rparr>"

definition local_install_world :: world where
  "local_install_world = \<lparr>files = local_install_files, effects = []\<rparr>"

definition silent_env :: env where
  "silent_env =
     example_env\<lparr>run_process :=
       (\<lambda>cmd fs. (Inr \<lparr>returncode = 0, stdout = [], stderr = []\<rparr>, fs))\<rparr>"

definition workspace_world :: world where
  "workspace_world = \<lparr>files = example_files([''tmp'', ''tmpa''] \<mapsto> Dir), effects = []\<rparr>"

definition directory_stem_files :: filesystem where
  "directory_stem_files =
     [[] \<mapsto> Dir, [''out''] \<mapsto> Dir, [''out'', ''drums.wav''] \<mapsto> Dir,
      [''out'', ''vocals.wav''] \<mapsto> File ''vv'']"

definition two_stem_files :: filesystem where
  "two_stem_files =
     [[] \<mapsto> Dir, [''out''] \<mapsto> Dir, [''out'', ''drums.wav''] \<mapsto> File ''dd'',
      [''out'', ''vocals.wav''] \<mapsto> File ''vv'']"

text \<open>
  An engine that exits 0 and leaves a regular file where its output directory should be;
  an engine that replaces the workspace by a regular file; an upload named \<open>..\<close>.
\<close>

definition file_output_env :: env where
  "file_output_env =
     example_env\<lparr>run_process :=
       (\<lambda>cmd fs. (Inr \<lparr>returncode = 0, stdout = [], stderr = []\<rparr>,
          fs([''tmp'', ''tmpa'', ''separated''] \<mapsto> Dir,
             [''tmp'', ''tmpa'', ''separated'', ''htdemucs''] \<mapsto> Dir,
             [''tmp'', ''tmpa'', ''separated'', ''htdemucs'', ''song''] \<mapsto> File ''log'')))\<rparr>"



section \<open>Properties\<close>

subsection \<open>Strings and paths\<close>

lemma rfind_absent: "c \<notin> set xs \<Longrightarrow> rfind xs c = - 1"
  by (induction xs) (auto simp: Let_def)

lemma rfind_last_occurrence: "c \<notin> set e \<Longrightarrow> rfind (b @ c # e) c = int (length b)"
  by (induction b) (auto simp: Let_def rfind_absent)

lemma suffix_of_name:
  assumes "name p = b @ ''.'' @ e" "b \<noteq> []" "e \<noteq> []" "CHR ''.'' \<notin> set e"
  shows "suffix p = ''.'' @ e"
proof -
  have "rfind (b @ CHR ''.'' # e) (CHR ''.'') = int (length b)"
    using assms(4) by (rule rfind_last_occurrence)
  moreover have "0 < length b" "0 < length e" using assms by auto
  ultimately show ?thesis
    using assms(1) by (simp add: suffix_def Let_def)
qed

lemma lower_upper_char: "lower_char (upper_char c) = lower_char c"
  by (auto simp: lower_char_def upper_char_def Let_def)

subsection \<open>Transcoding is skipped for accepted extensions\<close>

lemma accepted_suffix_kept:
  "lower (suffix input_path) \<in> {''.wav'', ''.flac'', ''.mp3'', ''.m4a'', ''.ogg''}
   \<Longrightarrow> maybe_transcode_to_wav env input_path workdir w = (Inr input_path, w)"
  by (simp add: maybe_transcode_to_wav_def)

lemma accepted_ext_facts:
  "ext \<in> {''wav'', ''flac'', ''mp3'', ''m4a'', ''ogg''} \<Longrightarrow>
     ext \<noteq> [] \<and> CHR ''.'' \<notin> set ext \<and> lower ext = ext"
  by (auto simp: lower_def lower_char_def)

text \<open>
  Claim C3. When the file name of the input path is a non-empty base, a dot and one of the
  extensions wav, flac, mp3, m4a, ogg, \<open>maybe_transcode_to_wav\<close> returns the input path
  itself and leaves the world as it was: the file system is untouched and the trace gets
  no entry, so no process is spawned and no search for ffmpeg is made. This holds for every
  environment, also one without ffmpeg.
\<close>

theorem transcode_skipped_for_accepted_extension:
  assumes "name input_path = base @ ''.'' @ ext" and "base \<noteq> []"
    and "ext \<in> {''wav'', ''flac'', ''mp3'', ''m4a'', ''ogg''}"
  shows "maybe_transcode_to_wav env input_path workdir w = (Inr input_path, w)"
proof -
  from assms(3) have e: "ext \<noteq> []" "CHR ''.'' \<notin> set ext" "lower ext = ext"
    using accepted_ext_facts by blast+
  from assms(1,2) e(1,2) have "suffix input_path = ''.'' @ ext" by (rule suffix_of_name)
  then have "lower (suffix input_path) = ''.'' @ ext"
    using e(3) by (simp add: lower_def lower_char_def)
  with assms(3) show ?thesis
    by (intro accepted_suffix_kept) auto
qed

theorem transcode_skipped_for_accepted_extension_witness:
  "maybe_transcode_to_wav example_env [''tmp'', ''tmpa'', ''song.flac''] [''tmp'', ''tmpa'']
     example_world = (Inr [''tmp'', ''tmpa'', ''song.flac''], example_world)"
  by (rule transcode_skipped_for_accepted_extension [where base = "''song''" and ext = "''flac''"])
     (simp_all add: name_def)

subsection \<open>Letter case of the extension\<close>

lemma differs_only_in_case_lower: "differs_only_in_case s t \<Longrightarrow> lower s = lower t"
  unfolding differs_only_in_case_def lower_def
proof (induction s t rule: list_all2_induct)
  case Nil
  then show ?case by simp
next
  case (Cons x xs y ys)
  from Cons.hyps(1) have "lower_char x = lower_char y"
    using lower_upper_char by metis
  with Cons.IH show ?case by simp
qed

lemma lower_char_dot: "lower_char c = CHR ''.'' \<Longrightarrow> c = CHR ''.''"
proof (cases "65 \<le> (of_char c :: nat) \<and> (of_char c :: nat) \<le> 90")
  case True
  assume "lower_char c = CHR ''.''"
  with True have "char_of (of_char c + 32 :: nat) = CHR ''.''"
    by (simp add: lower_char_def Let_def)
  then have "(of_char (char_of (of_char c + 32 :: nat) :: char) :: nat) = of_char (CHR ''.'')"
    by simp
  with True show ?thesis by simp
next
  case False
  assume "lower_char c = CHR ''.''"
  with False show ?thesis by (auto simp: lower_char_def Let_def)
qed

lemma dot_in_lower: "CHR ''.'' \<in> set (lower s) \<longleftrightarrow> CHR ''.'' \<in> set s"
proof
  assume "CHR ''.'' \<in> set (lower s)"
  then obtain c where "c \<in> set s" "lower_char c = CHR ''.''"
    by (auto simp: lower_def)
  then show "CHR ''.'' \<in> set s" using lower_char_dot by blast
next
  assume "CHR ''.'' \<in> set s"
  then have "lower_char (CHR ''.'') \<in> set (lower s)" by (simp add: lower_def)
  then show "CHR ''.'' \<in> set (lower s)" by (simp add: lower_char_def)
qed

text \<open>
  Claim C10. The test on the extension ignores letter case: when the file name of the input
  path is a non-empty base, a dot and an extension that differs from one of wav, flac, mp3,
  m4a, ogg only in letter case, \<open>maybe_transcode_to_wav\<close> returns the input path itself
  and leaves the world as it was, exactly as for the lower case extension.
\<close>

theorem transcode_skipped_whatever_the_letter_case:
  assumes "name input_path = base @ ''.'' @ ext'" and "base \<noteq> []"
    and "ext \<in> {''wav'', ''flac'', ''mp3'', ''m4a'', ''ogg''}"
    and "differs_only_in_case ext' ext"
  shows "maybe_transcode_to_wav env input_path workdir w = (Inr input_path, w)"
proof -
  from assms(3) have e: "ext \<noteq> []" "CHR ''.'' \<notin> set ext" "lower ext = ext"
    using accepted_ext_facts by blast+
  from assms(4) have l: "lower ext' = ext"
    using differs_only_in_case_lower e(3) by simp
  with e(1) have ne: "ext' \<noteq> []" by (auto simp: lower_def)
  from l e(2) have nd: "CHR ''.'' \<notin> set ext'" using dot_in_lower by metis
  from assms(1,2) ne nd have "suffix input_path = ''.'' @ ext'" by (rule suffix_of_name)
  then have "lower (suffix input_path) = ''.'' @ ext"
    using l by (simp add: lower_def lower_char_def)
  with assms(3) show ?thesis
    by (intro accepted_suffix_kept) auto
qed

theorem transcode_skipped_whatever_the_letter_case_witness:
  "maybe_transcode_to_wav example_env [''tmp'', ''tmpa'', ''Song.Mp3''] [''tmp'', ''tmpa'']
     example_world = (Inr [''tmp'', ''tmpa'', ''Song.Mp3''], example_world)"
  apply (rule transcode_skipped_whatever_the_letter_case [where base = "''Song''" and ext = "''mp3''" and ext' = "''Mp3''"])
  apply (simp_all add: name_def differs_only_in_case_def upper_char_def)
  apply code_simp
  done

subsection \<open>Path components and the file system\<close>

lemma split_on_nonempty: "split_on c s \<noteq> []"
  by (induction s) (auto split: list.splits)

lemma split_on_no_sep: "x \<in> set (split_on c s) \<Longrightarrow> c \<notin> set x"
  by (induction s arbitrary: x) (auto split: list.splits if_splits)

lemma split_on_single: "c \<notin> set s \<Longrightarrow> split_on c s = [s]"
  by (induction s) auto

lemma parse_parts_component:
  "x \<in> set (parse_parts s) \<Longrightarrow> x \<noteq> [] \<and> x \<noteq> ''.'' \<and> CHR ''/'' \<notin> set x"
  using split_on_no_sep by (fastforce simp: parse_parts_def)

lemma name_parse_parts:
  "name (parse_parts s) = [] \<or>
   (name (parse_parts s) \<noteq> ''.'' \<and> CHR ''/'' \<notin> set (name (parse_parts s)))"
proof (cases "parse_parts s")
  case Nil
  then show ?thesis by (simp add: name_def)
next
  case (Cons a as)
  then have "name (parse_parts s) \<in> set (parse_parts s)"
    by (simp add: name_def)
  then show ?thesis using parse_parts_component by blast
qed

lemma joinpath_component:
  assumes "CHR ''/'' \<notin> set n" "n \<noteq> ''.''"
  shows "joinpath p n = (if n = [] then p else p @ [n])"
proof -
  have "\<not> is_absolute n" using assms(1) by (cases n) (auto simp: is_absolute_def)
  moreover have "parse_parts n = (if n = [] then [] else [n])"
    using assms by (simp add: parse_parts_def split_on_single)
  ultimately show ?thesis by (simp add: joinpath_def)
qed

lemma joinpath_name_parse_parts:
  "joinpath p (name (parse_parts s)) =
     (if name (parse_parts s) = [] then p else p @ [name (parse_parts s)])"
  using name_parse_parts [of s] joinpath_component [of "name (parse_parts s)" p]
  by (auto simp: joinpath_def is_absolute_def parse_parts_def)

lemma walk_append:
  "walk fs cur (p @ q) = (case walk fs cur p of Inl e \<Rightarrow> Inl e | Inr k \<Rightarrow> walk fs k q)"
  by (induction p arbitrary: cur) (auto split: option.splits node.splits)


lemma walk_after_create:
  "walk fs cur p = Inr k \<Longrightarrow> fs k0 = None \<Longrightarrow> walk (fs(k0 \<mapsto> v)) cur p = Inr k"
  by (induction p arbitrary: cur) (auto split: option.splits node.splits if_splits)

lemma below_refl [simp]: "below k k"
  by (simp add: below_def)

lemma below_Nil [simp]: "below k [] \<longleftrightarrow> k = []"
  by (auto simp: below_def)

lemma below_butlast: "below k (butlast q) \<Longrightarrow> below k q"
proof -
  assume a: "below k (butlast q)"
  then have "length (take (length k) (butlast q)) = length k"
    by (simp add: below_def)
  then have "length k \<le> length (butlast q)" by simp
  with a show ?thesis
    unfolding below_def by (cases q rule: rev_cases) auto
qed

lemma below_snoc: "below k (q @ [c]) \<Longrightarrow> \<not> below k q \<Longrightarrow> k = q @ [c]"
  unfolding below_def by (cases "length k \<le> length q") auto

lemma below_child: "below k (k @ q)"
  by (simp add: below_def)

lemma walk_new_dir:
  assumes "walk fs cur p = Inr k'" and "fs k = None" and "\<not> below k cur"
  shows "walk (\<lambda>q. if q = k then Some Dir else if below k q then None else fs q) cur p = Inr k'"
  using assms
proof (induction p arbitrary: cur)
  case Nil
  then show ?case by simp
next
  case (Cons c cs)
  let ?fs1 = "\<lambda>q. if q = k then Some Dir else if below k q then None else fs q"
  let ?next = "if c = ''..'' then butlast cur else cur @ [c]"
  from Cons.prems(1) have d: "fs cur = Some Dir" and w: "walk fs ?next cs = Inr k'"
    by (auto split: option.splits node.splits)
  from d Cons.prems(2,3) have d1: "?fs1 cur = Some Dir" by auto
  show ?case
  proof (cases "below k ?next")
    case False
    from Cons.IH [OF w Cons.prems(2) False] d1 show ?thesis by simp
  next
    case True
    have nk: "?next = k"
    proof (cases "c = ''..''")
      case True
      with \<open>below k ?next\<close> Cons.prems(3) below_butlast show ?thesis by auto
    next
      case False
      with \<open>below k ?next\<close> Cons.prems(3) below_snoc show ?thesis by auto
    qed
    have "cs = []"
    proof (cases cs)
      case Nil
      then show ?thesis .
    next
      case (Cons a as)
      with w nk Cons.prems(2) show ?thesis by simp
    qed
    with w nk d1 show ?thesis by simp
  qed
qed

lemma mkdir_result:
  assumes "mkdir fs p = Inr fs1"
  shows "\<exists>k. walk fs [] p = Inr k \<and> fs k = None \<and> \<not> names_directory p \<and>
             fs1 = (\<lambda>q. if q = k then Some Dir else if below k q then None else fs q)"
  using assms by (auto simp: mkdir_def split: sum.splits if_splits)

lemma mkdtemp_result:
  assumes "mkdtemp fs dir ns = Inr (tmp, fs1)"
  shows "\<exists>k. walk fs [] tmp = Inr k \<and> fs k = None \<and> \<not> names_directory tmp \<and>
             fs1 = (\<lambda>q. if q = k then Some Dir else if below k q then None else fs q)"
  using assms
proof (induction ns)
  case Nil
  then show ?case by simp
next
  case (Cons n ns)
  show ?case
  proof (cases "mkdir fs (dir @ [n])")
    case (Inl e)
    with Cons show ?thesis by (auto split: if_splits)
  next
    case (Inr fs')
    with Cons.prems have "tmp = dir @ [n]" "fs1 = fs'" by auto
    with Inr mkdir_result show ?thesis by blast
  qed
qed

text \<open>What \<open>mkdtemp\<close> leaves: the directory at its location, empty, the rest untouched.\<close>

lemma mkdtemp_workspace:
  assumes "mkdtemp fs dir ns = Inr (tmp, fs1)"
  shows "\<exists>k. walk fs [] tmp = Inr k \<and> fs k = None \<and> \<not> names_directory tmp \<and>
             walk fs1 [] tmp = Inr k \<and> fs1 k = Some Dir \<and>
             (\<forall>q. below k q \<and> q \<noteq> k \<longrightarrow> fs1 q = None) \<and>
             (\<forall>q. \<not> below k q \<longrightarrow> fs1 q = fs q)"
proof -
  from mkdtemp_result [OF assms] obtain k where
    k: "walk fs [] tmp = Inr k" "fs k = None" "\<not> names_directory tmp"
       "fs1 = (\<lambda>q. if q = k then Some Dir else if below k q then None else fs q)"
    by blast
  have "k \<noteq> []"
  proof
    assume "k = []"
    with k(1,2,3) show False
      by (cases tmp) (auto simp: names_directory_def split: option.splits)
  qed
  then have "\<not> below k []" by simp
  from walk_new_dir [OF k(1,2) this] k(4) have "walk fs1 [] tmp = Inr k" by simp
  with k show ?thesis by auto
qed



lemma exists_kinds: "exists fs p \<longleftrightarrow> is_dir fs p \<or> is_file fs p"
  by (auto simp: exists_def is_dir_def is_file_def split: sum.splits option.splits node.splits)




lemma names_directory_snoc: "names_directory (p @ [n]) \<longleftrightarrow> n = ''..''"
  by (cases p) (simp_all add: names_directory_def)

text \<open>Writing the upload into a workspace that is an empty directory at location \<open>k\<close>.\<close>

lemma write_bytes_workspace:
  assumes "walk fs [] tmp = Inr k" and "fs k = Some Dir"
    and "\<forall>q. below k q \<and> q \<noteq> k \<longrightarrow> fs q = None"
  shows "write_bytes fs (joinpath tmp (name (parse_parts s))) d =
           (if name (parse_parts s) = [] \<or> name (parse_parts s) = ''..''
            then Inl IsADirectoryError
            else Inr (fs(k @ [name (parse_parts s)] \<mapsto> File d)))"
proof -
  let ?n = "name (parse_parts s)"
  have j: "joinpath tmp ?n = (if ?n = [] then tmp else tmp @ [?n])"
    by (rule joinpath_name_parse_parts)
  show ?thesis
  proof (cases "?n = []")
    case True
    with j assms(1,2) show ?thesis by (simp add: write_bytes_def)
  next
    case False
    with j have j': "joinpath tmp ?n = tmp @ [?n]" by simp
    show ?thesis
    proof (cases "?n = ''..''")
      case True
      have "walk fs [] (tmp @ [''..'']) = Inr (butlast k)"
        using assms(1,2) by (simp add: walk_append)
      with True j' show ?thesis
        by (simp add: write_bytes_def names_directory_snoc)
    next
      case nd: False
      have w: "walk fs [] (tmp @ [?n]) = Inr (k @ [?n])"
        using assms(1,2) nd by (simp add: walk_append)
      have "fs (k @ [?n]) = None" using assms(3) by (simp add: below_child)
      with w j' False nd show ?thesis
        by (simp add: write_bytes_def names_directory_snoc)
    qed
  qed
qed


subsection \<open>No transcoder, no separation\<close>

lemma name_snoc: "name (p @ [n]) = n"
  by (cases p) (simp_all add: name_def)

lemma suffix_same_name: "name p = name q \<Longrightarrow> suffix p = suffix q"
  by (simp add: suffix_def)

lemma stem_same_name: "name p = name q \<Longrightarrow> stem p = stem q"
  by (simp add: stem_def)

lemma truthy_None [simp]: "\<not> truthy None"
  by (simp add: truthy_def)

lemma truthy_Some [simp]: "truthy (Some s) \<longleftrightarrow> s \<noteq> []"
  by (simp add: truthy_def)

lemma transcoder_missing:
  assumes "\<not> truthy (FFMPEG_BIN env)" and "\<forall>fs. \<not> truthy (which env fs ''ffmpeg'')"
    and "lower (suffix input_path) \<notin> {''.wav'', ''.flac'', ''.mp3'', ''.m4a'', ''.ogg''}"
  shows "maybe_transcode_to_wav env input_path workdir w =
           (Inl (HTTPException 500
              (''FFmpeg is required to transcode this format (e.g., webm). '' @
               ''Install ffmpeg or upload a wav/mp3 file.'')),
            w\<lparr>effects := effects w @ [Which ''ffmpeg'']\<rparr>)"
  using assms
  by (simp add: maybe_transcode_to_wav_def resolve_ffmpeg_bin_def shutil_which_def)

text \<open>The handler, once it has its workspace, is the block followed by the cleanup.\<close>

lemma separate_block:
  assumes "http_method request \<noteq> ''OPTIONS''" and "upload_file request = Some upl"
    and "truthy (filename upl)"
    and "mkdtemp (files w) (gettempdir env) (candidate_names env) = Inr (tmp, fs1)"
  shows "separate env request w =
           cleanup tmp (separate_body env upl tmp
                          (w\<lparr>files := fs1, effects := effects w @ [Mkdtemp tmp]\<rparr>))"
  using assms by (simp add: separate_def)

lemma cleanup_result:
  "fst (cleanup tmp (r, w2)) = (case fst (rmtree (files w2) tmp) of Some e \<Rightarrow> Inl e | None \<Rightarrow> r)"
  "files (snd (cleanup tmp (r, w2))) = snd (rmtree (files w2) tmp)"
  "effects (snd (cleanup tmp (r, w2))) = effects w2 @ [Rmtree tmp]"
  by (simp_all add: cleanup_def Let_def split: prod.splits option.splits)

lemma cleanup_directory:
  assumes "walk (files w2) [] tmp = Inr k" and "files w2 k = Some Dir"
    and "\<not> names_directory tmp"
  shows "fst (cleanup tmp (r, w2)) = r"
  using assms by (simp add: cleanup_result rmtree_def)

lemma separate_body_transcoder_missing:
  assumes "\<not> truthy (FFMPEG_BIN env)" and "\<forall>fs. \<not> truthy (which env fs ''ffmpeg'')"
    and "lower (suffix (parse_parts fn)) \<notin> {''.wav'', ''.flac'', ''.mp3'', ''.m4a'', ''.ogg''}"
    and "filename upl = Some fn"
    and "walk (files w) [] tmp = Inr k" and "files w k = Some Dir"
    and "\<forall>q. below k q \<and> q \<noteq> k \<longrightarrow> files w q = None"
  shows "separate_body env upl tmp w =
           (case write_bytes (files w) (joinpath tmp (name (parse_parts fn))) (content upl) of
              Inl e \<Rightarrow> (Inl e, w\<lparr>effects := effects w @ [WriteBytes (joinpath tmp (name (parse_parts fn)))]\<rparr>)
            | Inr fs2 \<Rightarrow>
                (Inl (HTTPException 500
                   (''FFmpeg is required to transcode this format (e.g., webm). '' @
                    ''Install ffmpeg or upload a wav/mp3 file.'')),
                 w\<lparr>files := fs2,
                   effects := effects w @ [WriteBytes (joinpath tmp (name (parse_parts fn))),
                                           Which ''ffmpeg'']\<rparr>))"
proof (cases "write_bytes (files w) (joinpath tmp (name (parse_parts fn))) (content upl)")
  case (Inl e)
  then show ?thesis using assms(4)
    by (simp add: separate_body_def write_bytes_in_def)
next
  case (Inr fs2)
  with write_bytes_workspace [OF assms(5,6,7), of fn "content upl"]
  have "name (parse_parts fn) \<noteq> []" by (auto split: if_splits)
  with joinpath_name_parse_parts [of tmp fn]
  have j: "joinpath tmp (name (parse_parts fn)) = tmp @ [name (parse_parts fn)]" by simp
  have "suffix (tmp @ [name (parse_parts fn)]) = suffix (parse_parts fn)"
    by (rule suffix_same_name) (simp add: name_snoc)
  with assms(3)
  have "lower (suffix (tmp @ [name (parse_parts fn)])) \<notin> {''.wav'', ''.flac'', ''.mp3'', ''.m4a'', ''.ogg''}"
    by simp
  from transcoder_missing [OF assms(1,2) this]
  show ?thesis using Inr assms(4) j
    by (simp add: separate_body_def process_input_def write_bytes_in_def)
qed

text \<open>
  Claim C7. Take a request that carries a file whose name has an extension outside the
  accepted set, in an installation where no transcoder resolves (no \<open>FFMPEG_BIN\<close>, and
  \<open>shutil.which\<close> finds no ffmpeg). Then the request fails: with the error of creating the
  workspace or of writing the upload when one of these fails, and otherwise with the error
  500 that asks for ffmpeg. Whatever the case, no process is spawned during the request,
  so the separation engine never runs.
\<close>

theorem no_transcoder_fails_before_separation:
  assumes "\<not> truthy (FFMPEG_BIN env)" and "\<forall>fs. \<not> truthy (which env fs ''ffmpeg'')"
    and "lower (suffix (parse_parts fn)) \<notin> {''.wav'', ''.flac'', ''.mp3'', ''.m4a'', ''.ogg''}"
    and "http_method request \<noteq> ''OPTIONS''" and "upload_file request = Some upl"
    and "filename upl = Some fn" and "fn \<noteq> []"
  shows "fst (separate env request w) =
           (case mkdtemp (files w) (gettempdir env) (candidate_names env) of
              Inl e \<Rightarrow> Inl e
            | Inr (tmp, fs1) \<Rightarrow>
                (case write_bytes fs1 (joinpath tmp (name (parse_parts fn))) (content upl) of
                   Inl e \<Rightarrow> Inl e
                 | Inr fs2 \<Rightarrow>
                     Inl (HTTPException 500
                       (''FFmpeg is required to transcode this format (e.g., webm). '' @
                        ''Install ffmpeg or upload a wav/mp3 file.''))))
         \<and> (\<exists>e. fst (separate env request w) = Inl e)
         \<and> spawned (snd (separate env request w)) = spawned w"
proof (cases "mkdtemp (files w) (gettempdir env) (candidate_names env)")
  case (Inl e)
  then show ?thesis using assms by (auto simp: separate_def)
next
  case (Inr r)
  obtain tmp fs1 where r: "r = (tmp, fs1)" by (cases r)
  from mkdtemp_workspace [OF Inr [unfolded r]] obtain k where
    k: "walk fs1 [] tmp = Inr k" "fs1 k = Some Dir" "\<not> names_directory tmp"
       "\<forall>q. below k q \<and> q \<noteq> k \<longrightarrow> fs1 q = None"
    by blast
  let ?n = "name (parse_parts fn)"
  let ?w1 = "w\<lparr>files := fs1, effects := effects w @ [Mkdtemp tmp]\<rparr>"
  let ?err = "Inl (HTTPException 500
                (''FFmpeg is required to transcode this format (e.g., webm). '' @
                 ''Install ffmpeg or upload a wav/mp3 file.'')) :: exn + response"
  have t: "truthy (filename upl)" using assms(6,7) by simp
  have s: "separate env request w = cleanup tmp (separate_body env upl tmp ?w1)"
    using separate_block [OF assms(4,5) t Inr [unfolded r]] .
  have "walk (files ?w1) [] tmp = Inr k" "files ?w1 k = Some Dir"
       "\<forall>q. below k q \<and> q \<noteq> k \<longrightarrow> files ?w1 q = None"
    using k by simp_all
  note b = separate_body_transcoder_missing [OF assms(1,2,3,6) this]
  show ?thesis
  proof (cases "write_bytes fs1 (joinpath tmp ?n) (content upl)")
    case (Inl e)
    with b have b': "separate_body env upl tmp ?w1 =
        (Inl e, w\<lparr>files := fs1,
                   effects := effects w @ [Mkdtemp tmp, WriteBytes (joinpath tmp ?n)]\<rparr>)"
      by simp
    have "fst (separate env request w) = Inl e"
      unfolding s b' by (rule cleanup_directory) (use k in simp_all)
    moreover have "spawned (snd (separate env request w)) = spawned w"
      unfolding s b' by (simp add: spawned_def cleanup_result)
    ultimately show ?thesis using Inr r Inl by simp
  next
    case (Inr fs2)
    from write_bytes_workspace [OF k(1,2,4), of fn "content upl"] Inr
    have f: "fs2 = fs1(k @ [?n] \<mapsto> File (content upl))" by (auto split: if_splits)
    from k(4) have "fs1 (k @ [?n]) = None" by (simp add: below_child)
    with k(1) have w2: "walk fs2 [] tmp = Inr k" unfolding f by (rule walk_after_create)
    have d2: "fs2 k = Some Dir" using k(2) f by simp
    from b Inr have b': "separate_body env upl tmp ?w1 =
        (?err, w\<lparr>files := fs2,
                  effects := effects w @ [Mkdtemp tmp, WriteBytes (joinpath tmp ?n), Which ''ffmpeg'']\<rparr>)"
      by simp
    have "fst (separate env request w) = ?err"
      unfolding s b' by (rule cleanup_directory) (use w2 d2 k in simp_all)
    moreover have "spawned (snd (separate env request w)) = spawned w"
      unfolding s b' by (simp add: spawned_def cleanup_result)
    ultimately show ?thesis using \<open>mkdtemp (files w) (gettempdir env) (candidate_names env) = Inr r\<close> r Inr
      by simp
  qed
qed

lemma example_mkdtemp:
  "mkdtemp (files example_world) (gettempdir example_env) (candidate_names example_env) =
     Inr ([''tmp'', ''tmpa''],
          \<lambda>q. if q = [''tmp'', ''tmpa''] then Some Dir
               else if below [''tmp'', ''tmpa''] q then None else example_files q)"
proof -
  have "walk example_files [] [''tmp'', ''tmpa''] = Inr [''tmp'', ''tmpa'']"
       "example_files [''tmp'', ''tmpa''] = None"
    by (simp_all add: example_files_def)
  then show ?thesis
    by (simp add: example_world_def example_env_def mkdir_def names_directory_def)
qed

theorem no_transcoder_fails_before_separation_witness:
  "fst (separate example_env clip_request example_world) =
     Inl (HTTPException 500
       (''FFmpeg is required to transcode this format (e.g., webm). '' @
        ''Install ffmpeg or upload a wav/mp3 file.''))
   \<and> spawned (snd (separate example_env clip_request example_world)) = []"
proof -
  have h1: "\<not> truthy (FFMPEG_BIN example_env)"
    by (simp add: FFMPEG_BIN_def example_env_def)
  have h2: "\<forall>fs. \<not> truthy (which example_env fs ''ffmpeg'')"
    by (simp add: example_env_def)
  have h3: "lower (suffix (parse_parts ''clip.webm'')) \<notin>
              {''.wav'', ''.flac'', ''.mp3'', ''.m4a'', ''.ogg''}"
    by (simp add: parse_parts_def suffix_def name_def lower_def lower_char_def)
  have h4: "http_method clip_request \<noteq> ''OPTIONS''" by (simp add: clip_request_def)
  have h5: "upload_file clip_request = Some \<lparr>filename = Some ''clip.webm'', content = ''abc''\<rparr>"
    by (simp add: clip_request_def)
  let ?fs1 = "\<lambda>q. if q = [''tmp'', ''tmpa''] then Some Dir
                   else if below [''tmp'', ''tmpa''] q then None else example_files q"
  have w: "write_bytes ?fs1
             (joinpath [''tmp'', ''tmpa''] (name (parse_parts ''clip.webm''))) ''abc'' =
           Inr (?fs1([''tmp'', ''tmpa'', ''clip.webm''] \<mapsto> File ''abc''))"
    by (simp add: write_bytes_def joinpath_def parse_parts_def name_def is_absolute_def
        example_files_def names_directory_def below_def)
  have s: "spawned example_world = []" by (simp add: spawned_def example_world_def)
  from no_transcoder_fails_before_separation [OF h1 h2 h3 h4 h5, of example_world]
  show ?thesis
    by (simp add: example_mkdtemp w s)
qed

subsection \<open>The example runs\<close>

lemma example_song_run:
  "fst (separate example_env song_request example_world) =
     Inr (StreamingResponse [(''drums.wav'', ''dd''), (''other.wav'', ''oo'')] ''htdemucs''
            (''attachment; filename='' @ [CHR 0x22] @ ''song_stems.zip'' @ [CHR 0x22]))"
  by code_simp

lemma example_song_effects:
  "effects (snd (separate example_env song_request example_world)) =
     [Mkdtemp [''tmp'', ''tmpa''], WriteBytes [''tmp'', ''tmpa'', ''song.wav''],
      Which ''demucs'',
      Spawn [''/usr/bin/demucs'', ''-n'', ''htdemucs'', ''-o'', ''/tmp/tmpa/separated'',
             ''/tmp/tmpa/song.wav''],
      Rmtree [''tmp'', ''tmpa'']]"
  by code_simp

subsection \<open>The archive is never empty\<close>

lemma zip_loop_none:
  "\<forall>s\<in>set ss. \<not> exists fs (joinpath d (s @ ''.wav''))
     \<Longrightarrow> zip_loop fs d ss (zf, found) = Inr (zf, found)"
  by (induction ss) (auto simp: Let_def)

lemma zf_write_grows: "zf_write fs p a zf = Inr zf' \<Longrightarrow> zf' \<noteq> []"
  by (auto simp: zf_write_def split: sum.splits option.splits node.splits)

lemma zip_loop_found_nonempty:
  "zip_loop fs d ss (zf, found) = Inr (zf', found') \<Longrightarrow> (found \<longrightarrow> zf \<noteq> [])
     \<Longrightarrow> (found' \<longrightarrow> zf' \<noteq> [])"
proof (induction ss arbitrary: zf found)
  case Nil
  then show ?case by simp
next
  case (Cons s ss)
  show ?case
  proof (cases "exists fs (joinpath d (s @ ''.wav''))")
    case False
    with Cons show ?thesis by (simp add: Let_def)
  next
    case True
    with Cons.prems(1) obtain zf1 where
      z: "zf_write fs (joinpath d (s @ ''.wav'')) (s @ ''.wav'') zf = Inr zf1"
         "zip_loop fs d ss (zf1, True) = Inr (zf', found')"
      by (auto simp: Let_def split: sum.splits)
    from z(1) have "zf1 \<noteq> []" by (rule zf_write_grows)
    with Cons.IH [OF z(2)] show ?thesis by simp
  qed
qed

lemma zip_stems_nonempty: "zip_stems fs d = Inr zf \<Longrightarrow> zf \<noteq> []"
  using zip_loop_found_nonempty [of fs d stems "[]" False]
  by (auto simp: zip_stems_def split: sum.splits prod.splits if_splits)

lemma separate_body_success:
  assumes "separate_body env upl tmp w = (Inr resp, w')"
  shows "\<exists>zf fs d m cd. resp = StreamingResponse zf m cd \<and> zip_stems fs d = Inr zf"
  using assms
  by (auto simp: separate_body_def process_input_def Let_def split: prod.splits sum.splits)

lemma cleanup_success:
  "cleanup tmp out = (Inr resp, w') \<Longrightarrow> \<exists>w2. out = (Inr resp, w2)"
  by (auto simp: cleanup_def Let_def split: prod.splits option.splits)

text \<open>
  Claim C5. When none of \<open>drums.wav\<close>, \<open>bass.wav\<close>, \<open>vocals.wav\<close>, \<open>other.wav\<close> exists in the
  stem directory, \<open>zip_stems\<close> raises the error 500 "No stems produced by Demucs."; and
  whenever the handler answers with a streamed archive, the archive has at least one
  entry. The handler returns either a response or an exception, never both.
\<close>

theorem archive_never_empty:
  "((\<forall>s\<in>set [''drums'', ''bass'', ''vocals'', ''other''].
        \<not> exists fs (joinpath stem_dir (s @ ''.wav''))) \<longrightarrow>
      zip_stems fs stem_dir = Inl (HTTPException 500 ''No stems produced by Demucs.''))
   \<and> (separate env request w = (Inr (StreamingResponse zf m cd), w') \<longrightarrow> zf \<noteq> [])"
proof (intro conjI impI)
  assume "\<forall>s\<in>set [''drums'', ''bass'', ''vocals'', ''other''].
            \<not> exists fs (joinpath stem_dir (s @ ''.wav''))"
  then have "zip_loop fs stem_dir stems ([], False) = Inr ([], False)"
    by (intro zip_loop_none) (simp add: stems_def)
  then show "zip_stems fs stem_dir = Inl (HTTPException 500 ''No stems produced by Demucs.'')"
    by (simp add: zip_stems_def)
next
  assume a: "separate env request w = (Inr (StreamingResponse zf m cd), w')"
  then obtain upl tmp w1 w2 where
    "separate_body env upl tmp w1 = (Inr (StreamingResponse zf m cd), w2)"
    by (auto simp: separate_def split: if_splits option.splits sum.splits prod.splits
        dest: cleanup_success)
  from separate_body_success [OF this] show "zf \<noteq> []"
    using zip_stems_nonempty by auto
qed

theorem archive_never_empty_witness:
  "zip_stems example_files [''tmp''] = Inl (HTTPException 500 ''No stems produced by Demucs.'')
   \<and> fst (separate example_env song_request example_world) =
       Inr (StreamingResponse [(''drums.wav'', ''dd''), (''other.wav'', ''oo'')] ''htdemucs''
              (''attachment; filename='' @ [CHR 0x22] @ ''song_stems.zip'' @ [CHR 0x22]))
   \<and> [(''drums.wav'', ''dd''), (''other.wav'', ''oo'')] \<noteq> ([] :: archive)"
proof -
  let ?zf = "[(''drums.wav'', ''dd''), (''other.wav'', ''oo'')]"
  let ?cd = "''attachment; filename='' @ [CHR 0x22] @ ''song_stems.zip'' @ [CHR 0x22]"
  let ?w' = "snd (separate example_env song_request example_world)"
  note c5 = archive_never_empty [of example_files "[''tmp'']" example_env song_request example_world
                ?zf "''htdemucs''" ?cd ?w']
  have none: "\<forall>s\<in>set [''drums'', ''bass'', ''vocals'', ''other''].
                \<not> exists example_files (joinpath [''tmp''] (s @ ''.wav''))"
    by (simp add: exists_def joinpath_def parse_parts_def is_absolute_def example_files_def)
  have run: "separate example_env song_request example_world =
               (Inr (StreamingResponse ?zf ''htdemucs'' ?cd), ?w')"
    using example_song_run by (simp add: prod_eq_iff)
  from c5 none have a: "zip_stems example_files [''tmp''] =
      Inl (HTTPException 500 ''No stems produced by Demucs.'')" by blast
  from c5 run have b: "?zf \<noteq> []" by blast
  from a example_song_run b show ?thesis by blast
qed

subsection \<open>The entries of the archive\<close>

lemma zf_write_present:
  assumes "exists fs p"
  shows "\<exists>b. zf_write fs p a zf =
           Inr (zf @ [(if is_dir fs p then a @ ''/'' else a, b)])"
  using assms
  by (auto simp: exists_def zf_write_def is_dir_def split: sum.splits node.splits)

lemma zip_loop_names:
  "zip_loop fs d ss (zf, found) = Inr (zf', found') \<Longrightarrow>
     map fst zf' =
       map fst zf @
       map (\<lambda>s. if is_dir fs (joinpath d (s @ ''.wav'')) then s @ ''.wav/'' else s @ ''.wav'')
         (filter (\<lambda>s. exists fs (joinpath d (s @ ''.wav''))) ss)"
proof (induction ss arbitrary: zf found)
  case Nil
  then show ?case by simp
next
  case (Cons s ss)
  show ?case
  proof (cases "exists fs (joinpath d (s @ ''.wav''))")
    case False
    with Cons show ?thesis by (simp add: Let_def)
  next
    case True
    from zf_write_present [OF True, of "s @ ''.wav''" zf] obtain b where
      b: "zf_write fs (joinpath d (s @ ''.wav'')) (s @ ''.wav'') zf =
            Inr (zf @ [(if is_dir fs (joinpath d (s @ ''.wav'')) then (s @ ''.wav'') @ ''/''
                        else s @ ''.wav'', b)])"
      by blast
    with True Cons.prems have
      "zip_loop fs d ss (zf @ [(if is_dir fs (joinpath d (s @ ''.wav'')) then (s @ ''.wav'') @ ''/''
                        else s @ ''.wav'', b)], True) = Inr (zf', found')"
      by (simp add: Let_def)
    from Cons.IH [OF this] True show ?thesis by simp
  qed
qed

text \<open>
  Claim C1, as amended. Whenever \<open>zip_stems\<close> returns an archive, the names of its entries
  are, in the order drums, bass, vocals, other, one name for each \<open><stem>.wav\<close> that exists
  in the stem directory and no other: \<open><stem>.wav\<close> itself for a regular file, and
  \<open><stem>.wav/\<close>, the name \<open>zipfile\<close> gives a directory entry, when a directory of that name
  exists. No name nests an entry below another.
\<close>

theorem zip_stems_entries:
  assumes "zip_stems fs stem_dir = Inr zf"
  shows "map fst zf =
           map (\<lambda>s. if is_dir fs (joinpath stem_dir (s @ ''.wav'')) then s @ ''.wav/''
                     else s @ ''.wav'')
             (filter (\<lambda>s. exists fs (joinpath stem_dir (s @ ''.wav'')))
                [''drums'', ''bass'', ''vocals'', ''other''])"
proof -
  from assms obtain found where "zip_loop fs stem_dir stems ([], False) = Inr (zf, found)"
    by (auto simp: zip_stems_def split: sum.splits prod.splits if_splits)
  from zip_loop_names [OF this] show ?thesis by (simp add: stems_def)
qed

theorem zip_stems_entries_witness:
  "zip_stems two_stem_files [''out''] = Inr [(''drums.wav'', ''dd''), (''vocals.wav'', ''vv'')]
   \<and> map fst [(''drums.wav'', ''dd''), (''vocals.wav'', ''vv'')] = [''drums.wav'', ''vocals.wav'']"
proof -
  have h: "zip_stems two_stem_files [''out''] = Inr [(''drums.wav'', ''dd''), (''vocals.wav'', ''vv'')]"
    by code_simp
  have e: "map (\<lambda>s. if is_dir two_stem_files (joinpath [''out''] (s @ ''.wav'')) then s @ ''.wav/''
                     else s @ ''.wav'')
             (filter (\<lambda>s. exists two_stem_files (joinpath [''out''] (s @ ''.wav'')))
                [''drums'', ''bass'', ''vocals'', ''other'']) = [''drums.wav'', ''vocals.wav'']"
    by code_simp
  from zip_stems_entries [OF h] e have "map fst [(''drums.wav'', ''dd''), (''vocals.wav'', ''vv'')] =
      [''drums.wav'', ''vocals.wav'']" by (rule trans)
  with h show ?thesis by (rule conjI)
qed

text \<open>
  The claim as stated, that the archive holds exactly the \<open><stem>.wav\<close> that exist as
  files, fails where \<open>drums.wav\<close> is a directory: \<open>Path.exists\<close> holds for it and the archive
  gets the entry \<open>drums.wav/\<close>.
\<close>

theorem zip_stems_directory_entry:
  "zip_stems directory_stem_files [''out''] = Inr [(''drums.wav/'', []), (''vocals.wav'', ''vv'')]
   \<and> \<not> is_file directory_stem_files (joinpath [''out''] ''drums.wav'')
   \<and> map fst [(''drums.wav/'', []), (''vocals.wav'', ''vv'')] \<noteq>
       map (\<lambda>s. s @ ''.wav'')
         (filter (\<lambda>s. is_file directory_stem_files (joinpath [''out''] (s @ ''.wav'')))
            [''drums'', ''bass'', ''vocals'', ''other''])"
  by code_simp

subsection \<open>Resolution order\<close>

lemma str_nonempty: "str p \<noteq> []"
  by (cases p) (simp_all add: str_def)

text \<open>
  Claim C4, as amended. The claim gives both kinds of binary the same three steps. The
  resolver of the separation engine has them: it agrees with the specification's
  resolution (override, search path, local \<open>.venv\<close> in Unix then Windows naming) and raises
  an error 500 when every step fails. The resolver of the transcoder has only the first
  two steps: override, then search path, and \<open>None\<close> otherwise; it never looks at a local
  installation. For both kinds a set (non-empty) override is returned whatever the search
  path holds, and without an override a match on the search path is returned.
\<close>

theorem resolution_order:
  "resolve env SeparationEngine w = spec_resolve env SeparationEngine (files w)
   \<and> (spec_resolve env SeparationEngine (files w) = None \<longrightarrow>
        (\<exists>d. fst (resolve_demucs_bin env w) = Inl (HTTPException 500 d)))
   \<and> resolve env Transcoder w = first_match [FFMPEG_BIN env, which env (files w) ''ffmpeg'']
   \<and> (truthy (override env k) \<longrightarrow> resolve env k w = override env k)
   \<and> (\<not> truthy (override env k) \<and> truthy (which env (files w) (executable_name k)) \<longrightarrow>
        resolve env k w = which env (files w) (executable_name k))"
  by (cases k; cases "DEMUCS_BIN env"; cases "FFMPEG_BIN env";
      cases "which env (files w) ''demucs''"; cases "which env (files w) ''ffmpeg''")
     (auto simp: resolve_def spec_resolve_def resolve_demucs_bin_def resolve_ffmpeg_bin_def
        shutil_which_def override_def executable_name_def local_candidates_def str_nonempty
        Let_def)

theorem resolution_order_witness:
  "resolve local_install_env SeparationEngine local_install_world = Some ''/srv/.venv/bin/demucs''"
proof -
  have "spec_resolve local_install_env SeparationEngine (files local_install_world) =
          Some ''/srv/.venv/bin/demucs''"
    by code_simp
  with resolution_order [of local_install_env local_install_world SeparationEngine]
  show ?thesis by simp
qed

text \<open>
  The claim as stated fails for the transcoder: with no override and no ffmpeg on the
  search path, an ffmpeg in the local \<open>.venv/bin\<close> is what the specification's resolution
  returns, and \<open>resolve_ffmpeg_bin\<close> returns \<open>None\<close>.
\<close>

theorem transcoder_ignores_local_install:
  "resolve local_install_env Transcoder local_install_world = None \<and>
   spec_resolve local_install_env Transcoder (files local_install_world) =
     Some ''/srv/.venv/bin/ffmpeg''"
  by code_simp

subsection \<open>A request without a file\<close>

text \<open>
  Claim C6. The claim holds for an upload whose file name is empty or absent: the handler
  raises the error 400 "File required." and the world is untouched (nothing written,
  nothing spawned). It fails for a request without the file field: the parameter
  \<open>file\<close> is then \<open>None\<close>, and the test \<open>not file.filename\<close> raises \<open>AttributeError\<close> before the
  error 400 can be raised; the server answers such an exception with status 500.
\<close>

theorem missing_file_field_raises_attribute_error:
  "(m \<noteq> ''OPTIONS'' \<longrightarrow>
      separate env \<lparr>http_method = m, upload_file = None\<rparr> w = (Inl AttributeError, w))
   \<and> (m \<noteq> ''OPTIONS'' \<and> \<not> truthy (filename upl) \<longrightarrow>
      separate env \<lparr>http_method = m, upload_file = Some upl\<rparr> w =
        (Inl (HTTPException 400 ''File required.''), w))"
  by (simp add: separate_def)

theorem missing_file_field_raises_attribute_error_witness:
  "separate example_env \<lparr>http_method = ''POST'', upload_file = None\<rparr> example_world =
     (Inl AttributeError, example_world)"
  using missing_file_field_raises_attribute_error [of "''POST''" example_env example_world] by simp

subsection \<open>The separation step checks its output\<close>

lemma stem_of_name:
  assumes "name p = b @ ''.'' @ e" "b \<noteq> []" "e \<noteq> []" "CHR ''.'' \<notin> set e"
  shows "stem p = b"
proof -
  have "rfind (b @ CHR ''.'' # e) (CHR ''.'') = int (length b)"
    using assms(4) by (rule rfind_last_occurrence)
  moreover have "0 < length b" "0 < length e" using assms by auto
  ultimately show ?thesis
    using assms(1) by (simp add: stem_def Let_def)
qed

text \<open>
  Claim C2, as amended. When the engine binary resolves and the spawned process exits with
  status 0, \<open>run_demucs\<close> computes \<open>output_root / DEMUCS_MODEL / input_path.stem\<close> (the stem
  of \<open>base.ext\<close> is \<open>base\<close>) and, in the file system the process left behind, returns that
  path when something exists there and raises the error 500 "Demucs output missing." when
  nothing does: it fails if and only if the path does not exist. The test is
  \<open>Path.exists\<close>, which holds for a directory and for a regular file alike. An engine that
  exits 0 and writes nothing gets the error.
\<close>

theorem run_demucs_checks_output_path:
  assumes "resolve_demucs_bin env w = (Inr demucs_bin, w1)"
    and "run_process env [demucs_bin, ''-n'', DEMUCS_MODEL env, ''-o'', str output_root,
                          str input_path] (files w1) = (Inr proc, fs2)"
    and "returncode proc = 0"
  shows "run_demucs env input_path output_root w =
           (if exists fs2 (joinpath (joinpath output_root (DEMUCS_MODEL env)) (stem input_path))
            then Inr (joinpath (joinpath output_root (DEMUCS_MODEL env)) (stem input_path))
            else Inl (HTTPException 500 ''Demucs output missing.''),
            w1\<lparr>files := fs2,
               effects := effects w1 @
                 [Spawn [demucs_bin, ''-n'', DEMUCS_MODEL env, ''-o'', str output_root,
                         str input_path]]\<rparr>)
         \<and> ((\<exists>e. fst (run_demucs env input_path output_root w) = Inl e) \<longleftrightarrow>
              \<not> exists fs2 (joinpath (joinpath output_root (DEMUCS_MODEL env)) (stem input_path)))
         \<and> (exists fs2 (joinpath (joinpath output_root (DEMUCS_MODEL env)) (stem input_path)) \<longleftrightarrow>
              is_dir fs2 (joinpath (joinpath output_root (DEMUCS_MODEL env)) (stem input_path)) \<or>
              is_file fs2 (joinpath (joinpath output_root (DEMUCS_MODEL env)) (stem input_path)))
         \<and> (\<forall>base ext. name input_path = base @ ''.'' @ ext \<and> base \<noteq> [] \<and> ext \<noteq> [] \<and>
                CHR ''.'' \<notin> set ext \<longrightarrow> stem input_path = base)"
proof -
  have a: "run_demucs env input_path output_root w =
           (if exists fs2 (joinpath (joinpath output_root (DEMUCS_MODEL env)) (stem input_path))
            then Inr (joinpath (joinpath output_root (DEMUCS_MODEL env)) (stem input_path))
            else Inl (HTTPException 500 ''Demucs output missing.''),
            w1\<lparr>files := fs2,
               effects := effects w1 @
                 [Spawn [demucs_bin, ''-n'', DEMUCS_MODEL env, ''-o'', str output_root,
                         str input_path]]\<rparr>)"
    using assms by (simp add: run_demucs_def subprocess_exec_def)
  then have b: "(\<exists>e. fst (run_demucs env input_path output_root w) = Inl e) \<longleftrightarrow>
              \<not> exists fs2 (joinpath (joinpath output_root (DEMUCS_MODEL env)) (stem input_path))"
    by simp
  have c: "\<forall>base ext. name input_path = base @ ''.'' @ ext \<and> base \<noteq> [] \<and> ext \<noteq> [] \<and>
                CHR ''.'' \<notin> set ext \<longrightarrow> stem input_path = base"
    using stem_of_name by blast
  from a b c exists_kinds show ?thesis by blast
qed

theorem run_demucs_checks_output_path_witness:
  "fst (run_demucs example_env [''tmp'', ''tmpa'', ''song.wav''] [''tmp'', ''tmpa'', ''separated'']
          workspace_world) = Inr [''tmp'', ''tmpa'', ''separated'', ''htdemucs'', ''song'']
   \<and> fst (run_demucs silent_env [''tmp'', ''tmpa'', ''song.wav''] [''tmp'', ''tmpa'', ''separated'']
          workspace_world) = Inl (HTTPException 500 ''Demucs output missing.'')"
proof -
  let ?w1 = "workspace_world\<lparr>effects := effects workspace_world @ [Which ''demucs'']\<rparr>"
  let ?cmd = "[''/usr/bin/demucs'', ''-n'', ''htdemucs'', ''-o'', ''/tmp/tmpa/separated'',
               ''/tmp/tmpa/song.wav'']"
  have m: "DEMUCS_MODEL example_env = ''htdemucs''" "DEMUCS_MODEL silent_env = ''htdemucs''"
    by (simp_all add: DEMUCS_MODEL_def example_env_def silent_env_def)
  have s: "str [''tmp'', ''tmpa'', ''separated''] = ''/tmp/tmpa/separated''"
          "str [''tmp'', ''tmpa'', ''song.wav''] = ''/tmp/tmpa/song.wav''"
    by (simp_all add: str_def)
  have r1: "resolve_demucs_bin example_env workspace_world = (Inr ''/usr/bin/demucs'', ?w1)"
    by (simp add: resolve_demucs_bin_def DEMUCS_BIN_def shutil_which_def example_env_def)
  have r2: "resolve_demucs_bin silent_env workspace_world = (Inr ''/usr/bin/demucs'', ?w1)"
    by (simp add: resolve_demucs_bin_def DEMUCS_BIN_def shutil_which_def example_env_def
        silent_env_def)
  have p1: "run_process example_env
              [''/usr/bin/demucs'', ''-n'', DEMUCS_MODEL example_env, ''-o'',
               str [''tmp'', ''tmpa'', ''separated''], str [''tmp'', ''tmpa'', ''song.wav'']]
              (files ?w1) =
            (Inr \<lparr>returncode = 0, stdout = [], stderr = []\<rparr>, snd (example_engine ?cmd (files ?w1)))"
    by (simp add: example_env_def example_engine_def m s)
  have p2: "run_process silent_env
              [''/usr/bin/demucs'', ''-n'', DEMUCS_MODEL silent_env, ''-o'',
               str [''tmp'', ''tmpa'', ''separated''], str [''tmp'', ''tmpa'', ''song.wav'']]
              (files ?w1) =
            (Inr \<lparr>returncode = 0, stdout = [], stderr = []\<rparr>, files ?w1)"
    by (simp add: silent_env_def)
  have z: "returncode \<lparr>returncode = 0, stdout = [], stderr = []\<rparr> = 0" by simp
  have e1: "exists (snd (example_engine ?cmd (files ?w1)))
              (joinpath (joinpath [''tmp'', ''tmpa'', ''separated''] (DEMUCS_MODEL example_env))
                 (stem [''tmp'', ''tmpa'', ''song.wav'']))"
    by (simp add: m exists_def joinpath_def parse_parts_def is_absolute_def stem_def name_def
        example_engine_def workspace_world_def example_files_def)
  have e2: "\<not> exists (files ?w1)
              (joinpath (joinpath [''tmp'', ''tmpa'', ''separated''] (DEMUCS_MODEL silent_env))
                 (stem [''tmp'', ''tmpa'', ''song.wav'']))"
    by (simp add: m exists_def joinpath_def parse_parts_def is_absolute_def stem_def name_def
        workspace_world_def example_files_def)
  have j: "joinpath (joinpath [''tmp'', ''tmpa'', ''separated''] ''htdemucs'')
             (stem [''tmp'', ''tmpa'', ''song.wav'']) =
           [''tmp'', ''tmpa'', ''separated'', ''htdemucs'', ''song'']"
    by (simp add: joinpath_def parse_parts_def is_absolute_def stem_def name_def)
  from run_demucs_checks_output_path [OF r1 p1 z, THEN conjunct1] e1 have a:
    "fst (run_demucs example_env [''tmp'', ''tmpa'', ''song.wav''] [''tmp'', ''tmpa'', ''separated'']
          workspace_world) = Inr [''tmp'', ''tmpa'', ''separated'', ''htdemucs'', ''song'']"
    by (simp add: m j)
  from run_demucs_checks_output_path [OF r2 p2 z, THEN conjunct1] e2 have b:
    "fst (run_demucs silent_env [''tmp'', ''tmpa'', ''song.wav''] [''tmp'', ''tmpa'', ''separated'']
          workspace_world) = Inl (HTTPException 500 ''Demucs output missing.'')"
    by simp
  from a b show ?thesis by (rule conjI)
qed

text \<open>
  The claim as stated, failure if and only if that directory does not exist, fails where
  the engine exits 0 and leaves a regular file at the expected path: no directory exists
  there, and \<open>run_demucs\<close> returns the path.
\<close>

theorem run_demucs_accepts_regular_file:
  "fst (run_demucs file_output_env [''tmp'', ''tmpa'', ''song.wav'']
          [''tmp'', ''tmpa'', ''separated''] workspace_world) =
     Inr [''tmp'', ''tmpa'', ''separated'', ''htdemucs'', ''song'']
   \<and> \<not> is_dir (files (snd (run_demucs file_output_env [''tmp'', ''tmpa'', ''song.wav'']
                              [''tmp'', ''tmpa'', ''separated''] workspace_world)))
          [''tmp'', ''tmpa'', ''separated'', ''htdemucs'', ''song'']"
  by code_simp

subsection \<open>The workspace is removed\<close>





subsection \<open>Where the upload is written\<close>










end
